theory Spec2Isabelle
  imports Main "HOL-Library.Char_ord" "HOL-Library.List_Lexorder" "HOL-Library.AList"
begin

section \<open>The notmuch index as seen from \<^verbatim>\<open>alot/db.py\<close>\<close>

text \<open>
  The mail index is external to \<^verbatim>\<open>db.py\<close>. What the module does with it is a sequence
  of calls (open, begin a transaction, create a query, freeze a message, ...), and what it
  gets back are the answers the module looks at: whether opening raised, whether
  \<^verbatim>\<open>begin_atomic\<close> raised, the status \<^verbatim>\<open>end_atomic\<close> returned, the messages and threads a
  query yields or the exception the search raises. The record \<open>index\<close> holds the answers
  as oracles (the answer to the n-th call of its kind) together with the calls made so
  far, in order. It also holds the order in which the interpreter iterates a set
  (\<open>set_order\<close>), the one other thing the module does not decide.
\<close>

type_synonym msgid = string

datatype mode = READ_ONLY | READ_WRITE

datatype status = SUCCESS | XAPIAN_EXCEPTION | UNBALANCED_ATOMIC

datatype event =
    OpenDatabase "string option" mode
  | BeginAtomic
  | CreateQuery string
  | Freeze msgid
  | AddTag msgid string bool
  | RemoveAllTags msgid
  | RemoveTag msgid string bool
  | Thaw msgid
  | EndAtomic
  | SearchThreads string

text \<open>
  The exceptions of the module (\<^verbatim>\<open>DatabaseError\<close> and its two subclasses) and the foreign
  ones it meets: \<^verbatim>\<open>NotmuchError\<close> and \<^verbatim>\<open>XapianError\<close> of the bindings, \<^verbatim>\<open>StopIteration\<close> of an
  exhausted iterator.
\<close>

datatype error =
    DatabaseError
  | DatabaseROError
  | DatabaseLockedError
  | NotmuchError
  | XapianError
  | StopIteration
  | EOFError

text \<open>
  A collection of tags as Python passes it around: a list or a set. \<^verbatim>\<open>set(tags)\<close> is
  \<open>to_set\<close>; a list never equals a set (\<^verbatim>\<open>['x'] != set(['x'])\<close> is \<^verbatim>\<open>True\<close>). A \<^verbatim>\<open>for\<close>
  loop visits a list in its order and a set in an order the running interpreter
  chooses: \<open>iterate\<close> takes that choice as its first argument.
\<close>

datatype pytags = PyList "string list" | PySet "string set"

fun to_set :: "pytags \<Rightarrow> string set" where
  "to_set (PyList xs) = set xs"
| "to_set (PySet s) = s"

fun iterate :: "(string set \<Rightarrow> string list) \<Rightarrow> pytags \<Rightarrow> string list" where
  "iterate order (PyList xs) = xs"
| "iterate order (PySet s) = order s"

text \<open>A queued write command: the tuple \<^verbatim>\<open>(cmd, querystring, tags, sync)\<close>.\<close>

type_synonym item = "string \<times> string \<times> pytags \<times> bool"

text \<open>
  A thread and a message as the bindings hand them out. \<^verbatim>\<open>get_replies\<close> returns \<^verbatim>\<open>None\<close>
  or the replies. The accessors of a thread object may raise (the bindings raise
  \<^verbatim>\<open>NotmuchError\<close> on an object that is not initialised): \<open>nm_raises\<close> is the exception
  they raise, if they do.
\<close>

datatype nm_message = NmMessage (nm_message_id: msgid) (nm_replies: "nm_message list option")

record nm_thread =
  nm_thread_id :: string
  nm_total_messages :: nat
  nm_authors :: string
  nm_subject :: string
  nm_oldest_date :: int
  nm_newest_date :: int
  nm_tags :: "string list"
  nm_toplevel_messages :: "nm_message list"
  nm_raises :: "error option"

record index =
  rw_open_raises :: bool
  ro_open_raises :: bool
  begin_raises :: "nat \<Rightarrow> bool"
  end_status :: "nat \<Rightarrow> status"
  search_messages :: "string \<Rightarrow> msgid list"
  search_threads :: "string \<Rightarrow> nm_thread list"
  search_threads_raises :: "string \<Rightarrow> error option"
  set_order :: "string set \<Rightarrow> string list"
  begun :: nat
  ended :: nat
  io_log :: "event list"

definition record_io :: "event list \<Rightarrow> index \<Rightarrow> index" where
  "record_io es db = db\<lparr>io_log := io_log db @ es\<rparr>"

text \<open>\<^verbatim>\<open>Database(path=path, mode=mode)\<close>: raises \<^verbatim>\<open>NotmuchError\<close> or gives the handle.\<close>

definition open_database :: "string option \<Rightarrow> mode \<Rightarrow> index \<Rightarrow> error option \<times> index" where
  "open_database p md db =
     (let db' = record_io [OpenDatabase p md] db;
          raises = (case md of READ_WRITE \<Rightarrow> rw_open_raises db | READ_ONLY \<Rightarrow> ro_open_raises db)
      in if raises then (Some NotmuchError, db') else (None, db'))"

text \<open>\<^verbatim>\<open>db.begin_atomic()\<close>: raises \<^verbatim>\<open>XapianError\<close> or starts the transaction.\<close>

definition begin_atomic :: "index \<Rightarrow> error option \<times> index" where
  "begin_atomic db =
     (let n = begun db;
          db' = record_io [BeginAtomic] (db\<lparr>begun := Suc n\<rparr>)
      in if begin_raises db n then (Some XapianError, db') else (None, db'))"

text \<open>\<^verbatim>\<open>db.end_atomic()\<close>: returns a status.\<close>

definition end_atomic :: "index \<Rightarrow> status \<times> index" where
  "end_atomic db =
     (let n = ended db
      in (end_status db n, record_io [EndAtomic] (db\<lparr>ended := Suc n\<rparr>)))"


section \<open>DBManager\<close>

record dbman =
  ro :: bool
  path :: "string option"
  writequeue :: "item list"
  processes :: "nat list"

text \<open>\<^verbatim>\<open>DBManager.__init__\<close>\<close>

definition DBManager :: "string option \<Rightarrow> bool \<Rightarrow> dbman" where
  "DBManager p r = \<lparr>ro = r, path = p, writequeue = [], processes = []\<rparr>"

text \<open>
  The body of the loop over \<^verbatim>\<open>query.search_messages()\<close> in \<^verbatim>\<open>flush\<close>, for one message:
  the calls it makes on the message, in order. The first \<^verbatim>\<open>if\<close> stands alone, the second
  has the \<^verbatim>\<open>elif\<close>, as in the source. \<^verbatim>\<open>tag.encode(DB_ENC)\<close> is taken as total and is not
  shown in the event.
\<close>

definition tag_calls ::
  "(string set \<Rightarrow> string list) \<Rightarrow> string \<Rightarrow> pytags \<Rightarrow> bool \<Rightarrow> msgid \<Rightarrow> event list" where
  "tag_calls order cmd tags sync msg =
     [Freeze msg]
     @ (if cmd = ''tag'' then map (\<lambda>t. AddTag msg t sync) (iterate order tags) else [])
     @ (if cmd = ''set''
        then RemoveAllTags msg # map (\<lambda>t. AddTag msg t sync) (iterate order tags)
        else if cmd = ''untag'' then map (\<lambda>t. RemoveTag msg t sync) (iterate order tags)
        else [])
     @ [Thaw msg]"

text \<open>
  What \<^verbatim>\<open>flush\<close> does for one item between \<^verbatim>\<open>begin_atomic\<close> and \<^verbatim>\<open>end_atomic\<close>: create the
  query and run the loop over the messages it finds.
\<close>

definition item_calls :: "index \<Rightarrow> item \<Rightarrow> event list" where
  "item_calls db current_item =
     (case current_item of (cmd, querystring, tags, sync) \<Rightarrow>
        CreateQuery querystring
        # concat (map (tag_calls (set_order db) cmd tags sync) (search_messages db querystring)))"

text \<open>
  The \<^verbatim>\<open>while self.writequeue\<close> loop of \<^verbatim>\<open>flush\<close>. It pops the head, begins the
  transaction (an \<^verbatim>\<open>XapianError\<close> there leaves as \<^verbatim>\<open>DatabaseError\<close>, the popped item gone),
  applies the item, ends the transaction and, when the status is not \<^verbatim>\<open>SUCCESS\<close>, puts the
  item back at the head; then the loop tests the queue again. Nothing bounds the number
  of rounds, so the loop is a partial function: \<open>None\<close> is a loop that never ends.
  The result is the exception raised (if any) with the index and the manager as the loop
  leaves them.
\<close>

partial_function (option) flush_loop ::
  "index \<Rightarrow> dbman \<Rightarrow> (error option \<times> index \<times> dbman) option" where
  "flush_loop db m =
     (case writequeue m of
        [] \<Rightarrow> Some (None, db, m)
      | current_item # rest \<Rightarrow>
          (case begin_atomic db of
             (Some e, db1) \<Rightarrow> Some (Some DatabaseError, db1, m\<lparr>writequeue := rest\<rparr>)
           | (None, db1) \<Rightarrow>
               (case end_atomic (record_io (item_calls db1 current_item) db1) of
                  (st, db2) \<Rightarrow>
                    if st \<noteq> SUCCESS
                    then flush_loop db2 (m\<lparr>writequeue := current_item # rest\<rparr>)
                    else flush_loop db2 (m\<lparr>writequeue := rest\<rparr>))))"

text \<open>\<^verbatim>\<open>DBManager.flush\<close>: the read-only test comes first, then the test of the queue.\<close>

definition flush :: "index \<Rightarrow> dbman \<Rightarrow> (error option \<times> index \<times> dbman) option" where
  "flush db m =
     (if ro m then Some (Some DatabaseROError, db, m)
      else if writequeue m \<noteq> [] then
        (case open_database (path m) READ_WRITE db of
           (Some e, db') \<Rightarrow> Some (Some DatabaseLockedError, db', m)
         | (None, db') \<Rightarrow> flush_loop db' m)
      else Some (None, db, m))"

text \<open>
  \<^verbatim>\<open>DBManager.tag\<close> and \<^verbatim>\<open>DBManager.untag\<close>. The first argument is what
  \<^verbatim>\<open>config.getboolean('maildir', 'synchronize_flags')\<close> answers (the settings module is
  not part of this file).
\<close>

definition tag :: "bool \<Rightarrow> string \<Rightarrow> pytags \<Rightarrow> bool \<Rightarrow> dbman \<Rightarrow> error option \<times> dbman" where
  "tag sync_maildir_flags querystring tags remove_rest m =
     (if ro m then (Some DatabaseROError, m)
      else if remove_rest
        then (None, m\<lparr>writequeue := writequeue m @ [(''set'', querystring, tags, sync_maildir_flags)]\<rparr>)
        else (None, m\<lparr>writequeue := writequeue m @ [(''tag'', querystring, tags, sync_maildir_flags)]\<rparr>))"

definition untag :: "bool \<Rightarrow> string \<Rightarrow> pytags \<Rightarrow> dbman \<Rightarrow> error option \<times> dbman" where
  "untag sync_maildir_flags querystring tags m =
     (if ro m then (Some DatabaseROError, m)
      else (None, m\<lparr>writequeue := writequeue m @ [(''untag'', querystring, tags, sync_maildir_flags)]\<rparr>))"

text \<open>
  \<^verbatim>\<open>DBManager.query\<close>: opens the index read-only and creates the query. The query object
  is the query string; an exception of \<^verbatim>\<open>Database(...)\<close> passes through.
\<close>

definition query :: "string \<Rightarrow> dbman \<Rightarrow> index \<Rightarrow> (error + string) \<times> index" where
  "query querystring m db =
     (case open_database (path m) READ_ONLY db of
        (Some e, db') \<Rightarrow> (Inl e, db')
      | (None, db') \<Rightarrow> (Inr querystring, record_io [CreateQuery querystring] db'))"

text \<open>
  \<^verbatim>\<open>query.search_threads().next()\<close>: the search may raise; when it does not, \<^verbatim>\<open>next()\<close>
  gives the first thread found or raises \<^verbatim>\<open>StopIteration\<close>.
\<close>

definition search_threads_next :: "string \<Rightarrow> index \<Rightarrow> (error + nm_thread) \<times> index" where
  "search_threads_next q db =
     (let db' = record_io [SearchThreads q] db
      in case search_threads_raises db q of
           Some e \<Rightarrow> (Inl e, db')
         | None \<Rightarrow>
             (case search_threads db q of
                [] \<Rightarrow> (Inl StopIteration, db')
              | th # _ \<Rightarrow> (Inr th, db')))"


section \<open>Search processes\<close>

text \<open>
  A pipe of \<^verbatim>\<open>multiprocessing.Pipe(False)\<close>: the values sent and not yet received, in
  order, and for each of the two copies of the sending end (the one of the process that
  called \<^verbatim>\<open>async\<close>, the one of the worker) whether it is closed. The processes live in a
  table; the manager's list \<^verbatim>\<open>processes\<close> holds positions in it.
\<close>

record 'b pipe =
  sent :: "'b list"
  parent_sender_closed :: bool
  worker_sender_closed :: bool

datatype pstate = Started | Exited | Terminated

record ('a, 'b) FillPipeProcess =
  it :: "'a list"
  pipe :: nat
  fn :: "'a \<Rightarrow> 'b"
  pstate :: pstate

record ('a, 'b) os =
  pipes :: "'b pipe list"
  procs :: "('a, 'b) FillPipeProcess list"

definition send :: "'b \<Rightarrow> 'b pipe \<Rightarrow> 'b pipe" where
  "send v p = p\<lparr>sent := sent p @ [v]\<rparr>"

text \<open>The loop of \<^verbatim>\<open>FillPipeProcess.run\<close>: \<^verbatim>\<open>for a in self.it: self.pipe.send(self.fun(a))\<close>.\<close>

fun send_each :: "('a \<Rightarrow> 'b) \<Rightarrow> 'a list \<Rightarrow> 'b pipe \<Rightarrow> 'b pipe" where
  "send_each f [] p = p"
| "send_each f (a # as) p = send_each f as (send (f a) p)"

text \<open>
  \<^verbatim>\<open>FillPipeProcess.run\<close>, for the process at position \<open>pid\<close>: the loop, then
  \<^verbatim>\<open>self.pipe.close()\<close>; the process has then run to its end. A process that was
  terminated does not run.
\<close>

definition run :: "nat \<Rightarrow> ('a, 'b) os \<Rightarrow> ('a, 'b) os" where
  "run pid s =
     (if pid < length (procs s) \<and> pstate (procs s ! pid) = Started then
        (let self = procs s ! pid;
             p = send_each (fn self) (it self) (pipes s ! pipe self)
         in s\<lparr>pipes := (pipes s)[pipe self := p\<lparr>worker_sender_closed := True\<rparr>],
              procs := (procs s)[pid := self\<lparr>pstate := Exited\<rparr>]\<rparr>)
      else s)"

text \<open>
  \<^verbatim>\<open>Process.terminate()\<close>: ends a process that is running, and only that. With the
  process its copy of the sending end goes: the system closes what a killed process held
  open.
\<close>

definition terminate :: "nat \<Rightarrow> ('a, 'b) os \<Rightarrow> ('a, 'b) os" where
  "terminate pid s =
     (if pid < length (procs s) \<and> pstate (procs s ! pid) = Started then
        (let self = procs s ! pid
         in s\<lparr>pipes := (pipes s)[pipe self := (pipes s ! pipe self)\<lparr>worker_sender_closed := True\<rparr>],
              procs := (procs s)[pid := self\<lparr>pstate := Terminated\<rparr>]\<rparr>)
      else s)"

text \<open>
  \<^verbatim>\<open>DBManager.async\<close>: makes the pipe, builds the process from \<^verbatim>\<open>cbl()\<close>, starts it,
  appends it to \<^verbatim>\<open>self.processes\<close>, closes its own copy of the sending end and returns
  the receiving end with the process.
\<close>

definition async ::
  "(unit \<Rightarrow> 'a list) \<Rightarrow> ('a \<Rightarrow> 'b) \<Rightarrow> ('a, 'b) os \<Rightarrow> dbman \<Rightarrow> (nat \<times> nat) \<times> ('a, 'b) os \<times> dbman" where
  "async cbl f s m =
     (let receiver = length (pipes s);
          s1 = s\<lparr>pipes := pipes s @ [\<lparr>sent = [], parent_sender_closed = False,
                                      worker_sender_closed = False\<rparr>]\<rparr>;
          process = length (procs s1);
          s2 = s1\<lparr>procs := procs s1 @ [\<lparr>it = cbl (), pipe = receiver, fn = f, pstate = Started\<rparr>]\<rparr>;
          m' = m\<lparr>processes := processes m @ [process]\<rparr>;
          s3 = s2\<lparr>pipes := (pipes s2)[receiver := (pipes s2 ! receiver)\<lparr>parent_sender_closed := True\<rparr>]\<rparr>
      in ((receiver, process), s3, m'))"

text \<open>\<^verbatim>\<open>DBManager.kill_search_processes\<close>\<close>

definition kill_search_processes :: "('a, 'b) os \<Rightarrow> dbman \<Rightarrow> ('a, 'b) os \<times> dbman" where
  "kill_search_processes s m = (fold terminate (processes m) s, m\<lparr>processes := []\<rparr>)"

text \<open>
  Receiving on the pipe: the next value; \<^verbatim>\<open>EOFError\<close> when nothing is left and every copy
  of the sending end is closed; otherwise the call blocks (\<open>None\<close>). \<open>recv_times p k\<close>
  is what \<open>k\<close> calls in a row give.
\<close>

definition recv :: "'b pipe \<Rightarrow> ((error + 'b) \<times> 'b pipe) option" where
  "recv p =
     (case sent p of
        v # vs \<Rightarrow> Some (Inr v, p\<lparr>sent := vs\<rparr>)
      | [] \<Rightarrow> if parent_sender_closed p \<and> worker_sender_closed p
              then Some (Inl EOFError, p) else None)"

fun recv_times :: "'b pipe \<Rightarrow> nat \<Rightarrow> (error + 'b) option list" where
  "recv_times p 0 = []"
| "recv_times p (Suc k) =
     (case recv p of
        None \<Rightarrow> [None]
      | Some (r, p') \<Rightarrow> Some r # recv_times p' k)"


section \<open>Thread\<close>

text \<open>
  The wrapper class \<^verbatim>\<open>Message\<close> lives in another module; here a wrapper is known by the
  id of the message it wraps. \<^verbatim>\<open>datetime.fromtimestamp\<close> gives a date or raises
  \<^verbatim>\<open>ValueError\<close> (\<open>None\<close>) when the year falls outside 1 to 9999.
\<close>

datatype message = Message msgid

datatype datetime = Datetime int

definition fromtimestamp :: "int \<Rightarrow> datetime option" where
  "fromtimestamp ts =
     (if - 62135596800 \<le> ts \<and> ts \<le> 253402300799 then Some (Datetime ts) else None)"

record thread =
  thread_id :: string
  total_messages :: nat
  authors :: string
  subject :: string
  oldest_date :: "datetime option"
  newest_date :: "datetime option"
  tags :: "string set"
  messages :: "(message \<times> message list) list"
  toplevel_messages :: "message list"

text \<open>
  The assignments of \<^verbatim>\<open>Thread.refresh\<close> (lines 276 to 293) from a thread of the index
  whose accessors answer: every field but the id is written, the message tree and the
  list of top-level messages are reset.
\<close>

definition load :: "string \<Rightarrow> nm_thread \<Rightarrow> thread" where
  "load tid th =
     \<lparr>thread_id = tid,
      total_messages = nm_total_messages th,
      authors = nm_authors th,
      subject = nm_subject th,
      oldest_date = fromtimestamp (nm_oldest_date th),
      newest_date = fromtimestamp (nm_newest_date th),
      tags = set (nm_tags th),
      messages = [],
      toplevel_messages = []\<rparr>"

text \<open>
  The part of \<^verbatim>\<open>Thread.refresh\<close> after the lookup: the first accessor called on a
  thread object that raises ends it before anything is assigned; the \<^verbatim>\<open>ValueError\<close> of
  \<^verbatim>\<open>datetime.fromtimestamp\<close> is the only exception caught there.
\<close>

definition refresh_from :: "nm_thread \<Rightarrow> thread \<Rightarrow> error option \<times> thread" where
  "refresh_from th t =
     (case nm_raises th of
        Some e \<Rightarrow> (Some e, t)
      | None \<Rightarrow> (None, load (thread_id t) th))"

text \<open>
  \<^verbatim>\<open>Thread.__init__\<close>: takes the id from the thread of the index and refreshes from it;
  what the accessors raise leaves the constructor.
\<close>

definition Thread :: "nm_thread \<Rightarrow> error + thread" where
  "Thread th =
     (case nm_raises th of
        Some e \<Rightarrow> Inl e
      | None \<Rightarrow> Inr (load (nm_thread_id th) th))"

text \<open>
  \<^verbatim>\<open>Thread.refresh\<close>: without an argument it looks the thread up first; the query, the
  search or \<^verbatim>\<open>next()\<close> may raise, and then nothing has been assigned.
\<close>

definition refresh ::
  "nm_thread option \<Rightarrow> dbman \<Rightarrow> index \<Rightarrow> thread \<Rightarrow> error option \<times> index \<times> thread" where
  "refresh thread_arg m db t =
     (case thread_arg of
        Some th \<Rightarrow> (case refresh_from th t of (r, t') \<Rightarrow> (r, db, t'))
      | None \<Rightarrow>
          (case query (''thread:'' @ thread_id t) m db of
             (Inl e, db1) \<Rightarrow> (Some e, db1, t)
           | (Inr q, db1) \<Rightarrow>
               (case search_threads_next q db1 of
                  (Inl e, db2) \<Rightarrow> (Some e, db2, t)
                | (Inr th, db2) \<Rightarrow> (case refresh_from th t of (r, t') \<Rightarrow> (r, db2, t')))))"

text \<open>
  The local function \<^verbatim>\<open>accumulate\<close> of \<^verbatim>\<open>get_messages\<close>: it enters the message with no
  replies, then appends to its entry the wrapper of each reply, built by the recursive
  call. The dictionary is an association list.
\<close>

fun accumulate ::
  "(message \<times> message list) list \<Rightarrow> nm_message \<Rightarrow> message \<times> (message \<times> message list) list"
and accumulate_replies ::
  "message \<Rightarrow> (message \<times> message list) list \<Rightarrow> nm_message list
     \<Rightarrow> (message \<times> message list) list" where
  "accumulate acc (NmMessage mid r) =
     (let M = Message mid;
          acc1 = AList.update M [] acc
      in case r of
           None \<Rightarrow> (M, acc1)
         | Some rs \<Rightarrow> (M, accumulate_replies M acc1 rs))"
| "accumulate_replies M acc [] = acc"
| "accumulate_replies M acc (r # rs) =
     (case accumulate acc r of
        (child, acc') \<Rightarrow>
          accumulate_replies M
            (AList.update M ((case map_of acc' M of None \<Rightarrow> [] | Some l \<Rightarrow> l) @ [child]) acc') rs)"

text \<open>The loop over \<^verbatim>\<open>thread.get_toplevel_messages()\<close> in \<^verbatim>\<open>get_messages\<close>.\<close>

fun accumulate_toplevel :: "nm_message list \<Rightarrow> thread \<Rightarrow> thread" where
  "accumulate_toplevel [] t = t"
| "accumulate_toplevel (msg # rest) t =
     (case accumulate (messages t) msg of
        (M, acc) \<Rightarrow>
          accumulate_toplevel rest
            (t\<lparr>messages := acc, toplevel_messages := toplevel_messages t @ [M]\<rparr>))"

text \<open>
  \<^verbatim>\<open>Thread.get_messages\<close>: builds the tree when \<^verbatim>\<open>self._messages\<close> is empty and returns
  \<^verbatim>\<open>self._messages\<close>.
\<close>

definition get_messages ::
  "dbman \<Rightarrow> index \<Rightarrow> thread \<Rightarrow> (error + (message \<times> message list) list) \<times> index \<times> thread" where
  "get_messages m db t =
     (if messages t = [] then
        (case query (''thread:'' @ thread_id t) m db of
           (Inl e, db1) \<Rightarrow> (Inl e, db1, t)
         | (Inr q, db1) \<Rightarrow>
             (case search_threads_next q db1 of
                (Inl e, db2) \<Rightarrow> (Inl e, db2, t)
              | (Inr th, db2) \<Rightarrow>
                  (case nm_raises th of
                     Some e \<Rightarrow> (Inl e, db2, t\<lparr>messages := []\<rparr>)
                   | None \<Rightarrow>
                       (let t' = accumulate_toplevel (nm_toplevel_messages th)
                                   (t\<lparr>messages := []\<rparr>)
                        in (Inr (messages t'), db2, t')))))
      else (Inr (messages t), db, t))"

text \<open>
  \<^verbatim>\<open>Thread.add_tags\<close>, \<^verbatim>\<open>Thread.remove_tags\<close> and \<^verbatim>\<open>Thread.set_tags\<close>. The calls of
  \<^verbatim>\<open>self._dbman.tag\<close> and \<^verbatim>\<open>self._dbman.untag\<close> may raise; the assignment to
  \<^verbatim>\<open>self._tags\<close> comes after the call.
\<close>

definition add_tags :: "bool \<Rightarrow> pytags \<Rightarrow> dbman \<Rightarrow> thread \<Rightarrow> error option \<times> dbman \<times> thread" where
  "add_tags sync_maildir_flags tgs m t =
     (let newtags = to_set tgs - tags t
      in if newtags \<noteq> {} then
           (case tag sync_maildir_flags (''thread:'' @ thread_id t) (PySet newtags) False m of
              (Some e, m') \<Rightarrow> (Some e, m', t)
            | (None, m') \<Rightarrow> (None, m', t\<lparr>tags := tags t \<union> newtags\<rparr>))
         else (None, m, t))"

definition remove_tags :: "bool \<Rightarrow> pytags \<Rightarrow> dbman \<Rightarrow> thread \<Rightarrow> error option \<times> dbman \<times> thread" where
  "remove_tags sync_maildir_flags tgs m t =
     (let rmtags = to_set tgs \<inter> tags t
      in if rmtags \<noteq> {} then
           (case untag sync_maildir_flags (''thread:'' @ thread_id t) tgs m of
              (Some e, m') \<Rightarrow> (Some e, m', t)
            | (None, m') \<Rightarrow> (None, m', t\<lparr>tags := tags t - rmtags\<rparr>))
         else (None, m, t))"

definition set_tags :: "bool \<Rightarrow> pytags \<Rightarrow> dbman \<Rightarrow> thread \<Rightarrow> error option \<times> dbman \<times> thread" where
  "set_tags sync_maildir_flags tgs m t =
     (if tgs \<noteq> PySet (tags t) then
        (case tag sync_maildir_flags (''thread:'' @ thread_id t) tgs True m of
           (Some e, m') \<Rightarrow> (Some e, m', t)
         | (None, m') \<Rightarrow> (None, m', t\<lparr>tags := to_set tgs\<rparr>))
      else (None, m, t))"

text \<open>
  \<^verbatim>\<open>DBManager.get_thread\<close>: the query is made before the \<^verbatim>\<open>try\<close>; whatever is raised
  inside the \<^verbatim>\<open>try\<close>, by the search, by \<^verbatim>\<open>next()\<close> or by the constructor \<^verbatim>\<open>Thread\<close>, is
  answered with \<^verbatim>\<open>None\<close>.
\<close>

definition get_thread :: "string \<Rightarrow> dbman \<Rightarrow> index \<Rightarrow> (error + thread option) \<times> index" where
  "get_thread tid m db =
     (case query (''thread:'' @ tid) m db of
        (Inl e, db1) \<Rightarrow> (Inl e, db1)
      | (Inr q, db1) \<Rightarrow>
          (case search_threads_next q db1 of
             (Inl e, db2) \<Rightarrow> (Inr None, db2)
           | (Inr th, db2) \<Rightarrow>
               (case Thread th of
                  Inl e \<Rightarrow> (Inr None, db2)
                | Inr t \<Rightarrow> (Inr (Some t), db2))))"


section \<open>Notions used in the statements\<close>

text \<open>
  The calls one transaction of \<^verbatim>\<open>flush\<close> makes for an item: \<^verbatim>\<open>begin_atomic\<close>, the calls for
  the item, \<^verbatim>\<open>end_atomic\<close>.
\<close>

definition transaction_calls :: "index \<Rightarrow> item \<Rightarrow> event list" where
  "transaction_calls db current_item = BeginAtomic # item_calls db current_item @ [EndAtomic]"

text \<open>
  An index on which, from now on, every transaction begins and none commits.
\<close>

definition commits_fail_from :: "index \<Rightarrow> bool" where
  "commits_fail_from db =
     ((\<forall>n. \<not> begin_raises db n) \<and> (\<forall>n. ended db \<le> n \<longrightarrow> end_status db n \<noteq> SUCCESS))"


section \<open>Sample data\<close>

definition item_A :: item where
  "item_A = (''tag'', ''thread:0001'', PyList [''inbox''], False)"

definition item_B :: item where
  "item_B = (''untag'', ''thread:0001'', PyList [''unread'', ''new''], False)"

definition item_C :: item where
  "item_C = (''set'', ''tag:todo'', PyList [''done''], True)"

definition two_messages :: "string \<Rightarrow> msgid list" where
  "two_messages q =
     (if q = ''thread:0001'' then [''m1''] else if q = ''tag:todo'' then [''m2''] else [])"

definition never_raises :: "nat \<Rightarrow> bool" where
  "never_raises n = False"

definition always_commits :: "nat \<Rightarrow> status" where
  "always_commits n = SUCCESS"

definition second_commit_fails :: "nat \<Rightarrow> status" where
  "second_commit_fails n = (if n = 1 then XAPIAN_EXCEPTION else SUCCESS)"

definition only_first_commits :: "nat \<Rightarrow> status" where
  "only_first_commits n = (if n = 0 then SUCCESS else XAPIAN_EXCEPTION)"

definition sample_nm_thread :: nm_thread where
  "sample_nm_thread =
     \<lparr>nm_thread_id = ''0001'', nm_total_messages = 2, nm_authors = ''alice, bob'',
      nm_subject = ''hello'', nm_oldest_date = 1300000000, nm_newest_date = 1300000600,
      nm_tags = [''x'', ''y''],
      nm_toplevel_messages = [NmMessage ''m1'' (Some [NmMessage ''m2'' None])],
      nm_raises = None\<rparr>"

definition sample_thread :: thread where
  "sample_thread = load ''0001'' sample_nm_thread"

definition never_fails :: "string \<Rightarrow> error option" where
  "never_fails q = None"

definition search_fails :: "string \<Rightarrow> error option" where
  "search_fails q = Some NotmuchError"

definition broken_thread :: "string \<Rightarrow> nm_thread list" where
  "broken_thread q = [sample_nm_thread\<lparr>nm_raises := Some NotmuchError\<rparr>]"

definition one_thread :: "string \<Rightarrow> nm_thread list" where
  "one_thread q = (if q = ''thread:0001'' then [sample_nm_thread] else [])"

definition sample_index :: "(nat \<Rightarrow> status) \<Rightarrow> index" where
  "sample_index sts =
     \<lparr>rw_open_raises = False, ro_open_raises = False, begin_raises = never_raises,
      end_status = sts, search_messages = two_messages, search_threads = one_thread,
      search_threads_raises = never_fails, set_order = sorted_list_of_set,
      begun = 0, ended = 0, io_log = []\<rparr>"

definition sample_manager :: dbman where
  "sample_manager = (DBManager (Some ''/mail'') False)\<lparr>writequeue := [item_A, item_B, item_C]\<rparr>"

definition no_os :: "(string, string) os" where
  "no_os = \<lparr>pipes = [], procs = []\<rparr>"

definition three_ids :: "unit \<Rightarrow> string list" where
  "three_ids u = [''t1'', ''t2'', ''t3'']"

definition mark :: "string \<Rightarrow> string" where
  "mark a = ''thread:'' @ a"

lemmas sample_defs =
  item_A_def item_B_def item_C_def two_messages_def never_raises_def always_commits_def
  second_commit_fails_def only_first_commits_def sample_nm_thread_def one_thread_def
  sample_index_def sample_manager_def DBManager_def no_os_def three_ids_def mark_def
  sample_thread_def never_fails_def search_fails_def broken_thread_def


section \<open>The loop of flush\<close>

lemma transaction_calls_static [simp]:
  "transaction_calls (begun_update f db) = transaction_calls db"
  "transaction_calls (ended_update g db) = transaction_calls db"
  "transaction_calls (io_log_update h db) = transaction_calls db"
  by (rule ext, simp add: transaction_calls_def item_calls_def)+

text \<open>
  One round of the loop when the transaction begins: the item is applied, and the next
  round starts from a queue that has the item at its head again when the commit failed.
\<close>

lemma flush_loop_round:
  assumes "writequeue m = a # q" and "\<not> begin_raises db (begun db)"
  shows "flush_loop db m =
     flush_loop
       (db\<lparr>begun := Suc (begun db), ended := Suc (ended db),
           io_log := io_log db @ transaction_calls db a\<rparr>)
       (m\<lparr>writequeue := (if end_status db (ended db) \<noteq> SUCCESS then a # q else q)\<rparr>)"
  using assms
  by (subst flush_loop.simps)
     (simp add: begin_atomic_def end_atomic_def record_io_def Let_def
        transaction_calls_def item_calls_def)

lemma flush_loop_done:
  "writequeue m = [] \<Longrightarrow> flush_loop db m = Some (None, db, m)"
  by (subst flush_loop.simps) simp

lemma flush_loop_all_commit:
  assumes "\<forall>n. \<not> begin_raises db n" and "\<forall>n. end_status db n = SUCCESS"
  shows "flush_loop db m =
     Some (None,
           db\<lparr>begun := begun db + length (writequeue m),
              ended := ended db + length (writequeue m),
              io_log := io_log db @ concat (map (transaction_calls db) (writequeue m))\<rparr>,
           m\<lparr>writequeue := []\<rparr>)"
  using assms
proof (induction "writequeue m" arbitrary: db m)
  case Nil
  then show ?case by (simp add: flush_loop_done)
next
  case (Cons a q)
  let ?db2 = "db\<lparr>begun := Suc (begun db), ended := Suc (ended db),
                 io_log := io_log db @ transaction_calls db a\<rparr>"
  have q: "writequeue m = a # q"
    using Cons.hyps(2) by simp
  have round: "flush_loop db m = flush_loop ?db2 (m\<lparr>writequeue := q\<rparr>)"
    using flush_loop_round [OF q, of db] Cons.prems by simp
  have "flush_loop ?db2 (m\<lparr>writequeue := q\<rparr>) =
     Some (None,
           ?db2\<lparr>begun := begun ?db2 + length q, ended := ended ?db2 + length q,
              io_log := io_log ?db2 @ concat (map (transaction_calls ?db2) q)\<rparr>,
           m\<lparr>writequeue := q, writequeue := []\<rparr>)"
    using Cons.hyps(1) [of "m\<lparr>writequeue := q\<rparr>" ?db2] Cons.prems by simp
  then show ?case
    by (simp add: round q)
qed

text \<open>
  When the loop ends without an exception the queue is empty: the only way out of the
  \<^verbatim>\<open>while\<close> is its test.
\<close>

lemma flush_loop_normal_return_empty:
  assumes "flush_loop db m = Some r"
  shows "fst r = None \<longrightarrow> writequeue (snd (snd r)) = []"
  using assms
  by (rule flush_loop.raw_induct
        [rotated, where P = "\<lambda>db m r. fst r = None \<longrightarrow> writequeue (snd (snd r)) = []"])
     (auto split: list.splits prod.splits option.splits if_splits)

text \<open>The loop writes no field of the manager but the queue.\<close>

lemma flush_loop_frame:
  assumes "flush_loop db m = Some r"
  shows "processes (snd (snd r)) = processes m \<and> ro (snd (snd r)) = ro m
     \<and> path (snd (snd r)) = path m"
  using assms
  by (rule flush_loop.raw_induct
        [rotated, where P = "\<lambda>db m r. processes (snd (snd r)) = processes m
            \<and> ro (snd (snd r)) = ro m \<and> path (snd (snd r)) = path m"])
     (fastforce split: list.splits prod.splits option.splits if_splits)

text \<open>
  On an index where no commit succeeds any more, the loop over a queue that is not empty
  has no result: it begins and ends the transaction of the head item again and again.
\<close>

lemma flush_loop_never_commits:
  assumes "flush_loop db m = Some r"
  shows "\<not> (writequeue m \<noteq> [] \<and> commits_fail_from db)"
  using assms
proof (rule flush_loop.raw_induct
    [rotated, where P = "\<lambda>db m r. \<not> (writequeue m \<noteq> [] \<and> commits_fail_from db)"])
  fix loop :: "index \<Rightarrow> dbman \<Rightarrow> (error option \<times> index \<times> dbman) option" and db m r
  assume IH: "\<And>db m r. loop db m = Some r \<Longrightarrow> \<not> (writequeue m \<noteq> [] \<and> commits_fail_from db)"
  assume body: "(case writequeue m of
        [] \<Rightarrow> Some (None, db, m)
      | current_item # rest \<Rightarrow>
          (case begin_atomic db of
             (Some e, db1) \<Rightarrow> Some (Some DatabaseError, db1, m\<lparr>writequeue := rest\<rparr>)
           | (None, db1) \<Rightarrow>
               (case end_atomic (record_io (item_calls db1 current_item) db1) of
                  (st, db2) \<Rightarrow>
                    if st \<noteq> SUCCESS
                    then loop db2 (m\<lparr>writequeue := current_item # rest\<rparr>)
                    else loop db2 (m\<lparr>writequeue := rest\<rparr>)))) = Some r"
  show "\<not> (writequeue m \<noteq> [] \<and> commits_fail_from db)"
  proof
    assume A: "writequeue m \<noteq> [] \<and> commits_fail_from db"
    then obtain a q where q: "writequeue m = a # q"
      by (cases "writequeue m") auto
    let ?db1 = "snd (begin_atomic db)"
    let ?db2 = "snd (end_atomic (record_io (item_calls ?db1 a) ?db1))"
    have st: "end_status db (ended db) \<noteq> SUCCESS" and nb: "\<not> begin_raises db (begun db)"
      using A by (simp_all add: commits_fail_from_def)
    have "loop ?db2 (m\<lparr>writequeue := a # q\<rparr>) = Some r"
      using body st nb
      by (simp add: q begin_atomic_def end_atomic_def record_io_def Let_def split: prod.splits)
    moreover have "commits_fail_from ?db2"
      using A by (simp add: commits_fail_from_def begin_atomic_def end_atomic_def record_io_def Let_def)
    ultimately show False
      using IH [of ?db2 "m\<lparr>writequeue := a # q\<rparr>" r] by simp
  qed
qed

lemma flush_frame:
  assumes "flush db m = Some (e, db', m')"
  shows "processes m' = processes m"
proof (cases "\<not> ro m \<and> writequeue m \<noteq> [] \<and> \<not> rw_open_raises db")
  case True
  then have "flush_loop (snd (open_database (path m) READ_WRITE db)) m = Some (e, db', m')"
    using assms by (simp add: flush_def open_database_def Let_def)
  from flush_loop_frame [OF this] show ?thesis
    by simp
next
  case False
  then show ?thesis
    using assms by (auto simp add: flush_def open_database_def Let_def split: if_splits)
qed

lemma flush_normal_return_empty:
  assumes "flush db m = Some (None, db', m')"
  shows "writequeue m' = []"
proof (cases "\<not> ro m \<and> writequeue m \<noteq> [] \<and> \<not> rw_open_raises db")
  case True
  then have "flush_loop (snd (open_database (path m) READ_WRITE db)) m = Some (None, db', m')"
    using assms by (simp add: flush_def open_database_def Let_def)
  from flush_loop_normal_return_empty [OF this] show ?thesis
    by simp
next
  case False
  then show ?thesis
    using assms by (auto simp add: flush_def open_database_def Let_def split: if_splits)
qed


section \<open>Flush\<close>



text \<open>
  C1. The queue is \<open>[A, B, C]\<close> and the second \<^verbatim>\<open>end_atomic\<close> of the flush, the commit of
  \<open>B\<close>, does not return \<^verbatim>\<open>SUCCESS\<close>; every other commit does. \<open>B\<close> is put back at the head
  and the next round of the same loop takes it again: the flush makes four transactions,
  for \<open>A\<close>, \<open>B\<close>, \<open>B\<close> and \<open>C\<close>, and returns with an empty queue, not with \<open>[B]\<close>.
\<close>

theorem flush_retries_failed_commit_at_once:
  "flush (sample_index second_commit_fails) sample_manager =
     Some (None,
           (sample_index second_commit_fails)\<lparr>begun := 4, ended := 4,
              io_log :=
                [OpenDatabase (Some ''/mail'') READ_WRITE,
                 BeginAtomic, CreateQuery ''thread:0001'', Freeze ''m1'',
                   AddTag ''m1'' ''inbox'' False, Thaw ''m1'', EndAtomic,
                 BeginAtomic, CreateQuery ''thread:0001'', Freeze ''m1'',
                   RemoveTag ''m1'' ''unread'' False, RemoveTag ''m1'' ''new'' False,
                   Thaw ''m1'', EndAtomic,
                 BeginAtomic, CreateQuery ''thread:0001'', Freeze ''m1'',
                   RemoveTag ''m1'' ''unread'' False, RemoveTag ''m1'' ''new'' False,
                   Thaw ''m1'', EndAtomic,
                 BeginAtomic, CreateQuery ''tag:todo'', Freeze ''m2'', RemoveAllTags ''m2'',
                   AddTag ''m2'' ''done'' True, Thaw ''m2'', EndAtomic]\<rparr>,
           sample_manager\<lparr>writequeue := []\<rparr>)"
  apply (simp add: flush_def sample_manager_def sample_index_def DBManager_def
      open_database_def record_io_def)
  apply (subst flush_loop_round [where a = item_A and q = "[item_B, item_C]"], simp, simp add: never_raises_def)
  apply (simp add: second_commit_fails_def)
  apply (subst flush_loop_round [where a = item_B and q = "[item_C]"], simp, simp add: never_raises_def)
  apply (simp add: second_commit_fails_def)
  apply (subst flush_loop_round [where a = item_B and q = "[item_C]"], simp, simp add: never_raises_def)
  apply (simp add: second_commit_fails_def)
  apply (subst flush_loop_round [where a = item_C and q = "[]"], simp, simp add: never_raises_def)
  apply (simp add: second_commit_fails_def)
  apply (subst flush_loop_done, simp)
  apply (simp add: transaction_calls_def item_calls_def tag_calls_def item_A_def item_B_def
      item_C_def two_messages_def)
  done

text \<open>
  When the commit of \<open>B\<close> fails every time, the same flush does not return at all.
\<close>

lemma flush_never_returns_while_commit_fails:
  "flush (sample_index only_first_commits) sample_manager = None"
proof -
  let ?db = "(sample_index only_first_commits)\<lparr>begun := 1, ended := 1,
      io_log := OpenDatabase (Some ''/mail'') READ_WRITE
        # transaction_calls (sample_index only_first_commits) item_A\<rparr>"
  let ?m = "sample_manager\<lparr>writequeue := [item_B, item_C]\<rparr>"
  have "flush (sample_index only_first_commits) sample_manager = flush_loop ?db ?m"
    apply (simp add: flush_def sample_manager_def sample_index_def DBManager_def
        open_database_def record_io_def)
    apply (subst flush_loop_round [where a = item_A and q = "[item_B, item_C]"], simp,
        simp add: never_raises_def)
    apply (simp add: only_first_commits_def transaction_calls_def item_calls_def)
    done
  moreover have "commits_fail_from ?db"
    by (simp add: commits_fail_from_def sample_index_def never_raises_def only_first_commits_def)
  moreover have "writequeue ?m \<noteq> []"
    by simp
  ultimately show ?thesis
    using flush_loop_never_commits [of ?db ?m] by (cases "flush_loop ?db ?m") auto
qed

text \<open>
  C3, as the source has it. With an empty queue, flush makes no call on the index and
  leaves the manager as it is; it returns without an exception on a manager that is not
  read-only and raises \<^verbatim>\<open>DatabaseROError\<close> on a read-only one, since the read-only test
  comes before the test of the queue.
\<close>

theorem flush_empty_queue:
  assumes "writequeue m = []"
  shows "flush db m = Some (if ro m then Some DatabaseROError else None, db, m)"
  using assms by (simp add: flush_def)

theorem flush_empty_queue_witness:
  "flush (sample_index always_commits) (DBManager None False)
     = Some (None, sample_index always_commits, DBManager None False)
   \<and> flush (sample_index always_commits) (DBManager (Some ''/mail'') True)
     = Some (Some DatabaseROError, sample_index always_commits, DBManager (Some ''/mail'') True)"
  using flush_empty_queue [of "DBManager None False" "sample_index always_commits"]
    flush_empty_queue [of "DBManager (Some ''/mail'') True" "sample_index always_commits"]
  by (simp add: DBManager_def)

text \<open>
  C3 as stated fails: a manager opened read-only, its queue empty, gets
  \<^verbatim>\<open>DatabaseROError\<close> from flush.
\<close>

theorem flush_empty_queue_read_only_raises:
  "flush (sample_index always_commits) (DBManager None True)
     = Some (Some DatabaseROError, sample_index always_commits, DBManager None True)"
  by (simp add: flush_def DBManager_def)

text \<open>
  C4. The queue is not empty and opening the index for writing raises (the manager is
  not read-only: only then does flush come to open the index, and only then can the
  queue hold anything). Flush raises \<^verbatim>\<open>DatabaseLockedError\<close>; the manager, its queue
  included, is as before, and the attempt to open is the only call on the index.
\<close>

theorem flush_locked_leaves_queue:
  assumes "\<not> ro m" and "writequeue m \<noteq> []" and "rw_open_raises db"
  shows "flush db m =
     Some (Some DatabaseLockedError,
           db\<lparr>io_log := io_log db @ [OpenDatabase (path m) READ_WRITE]\<rparr>, m)"
  using assms by (simp add: flush_def open_database_def record_io_def Let_def)

theorem flush_locked_leaves_queue_witness:
  "flush ((sample_index always_commits)\<lparr>rw_open_raises := True\<rparr>) sample_manager =
     Some (Some DatabaseLockedError,
       (sample_index always_commits)\<lparr>rw_open_raises := True,
          io_log := [OpenDatabase (Some ''/mail'') READ_WRITE]\<rparr>,
       sample_manager)"
  using flush_locked_leaves_queue
    [of sample_manager "(sample_index always_commits)\<lparr>rw_open_raises := True\<rparr>"]
  by (simp add: sample_manager_def sample_index_def DBManager_def)

text \<open>
  A queue that is not empty belongs to a manager that is not read-only: \<^verbatim>\<open>tag\<close> and
  \<^verbatim>\<open>untag\<close>, the only writers of the queue besides flush, raise on a read-only manager
  before they touch it.
\<close>

lemma read_only_queue_stays_empty:
  "ro m \<longrightarrow> writequeue m = [] \<Longrightarrow>
     (ro (snd (tag sync q tgs rest m)) \<longrightarrow> writequeue (snd (tag sync q tgs rest m)) = [])
   \<and> (ro (snd (untag sync q tgs m)) \<longrightarrow> writequeue (snd (untag sync q tgs m)) = [])"
  by (simp add: tag_def untag_def)


section \<open>Tags of a thread\<close>

text \<open>
  With nothing to add or to remove, \<^verbatim>\<open>add_tags\<close> and \<^verbatim>\<open>remove_tags\<close> do nothing, and so
  does \<^verbatim>\<open>set_tags\<close> when it is handed a set equal to the tags of the thread.
\<close>

lemma empty_delta_is_noop:
  "to_set tgs - tags t = {} \<Longrightarrow> add_tags sync tgs m t = (None, m, t)"
  "to_set tgs \<inter> tags t = {} \<Longrightarrow> remove_tags sync tgs m t = (None, m, t)"
  "set_tags sync (PySet (tags t)) m t = (None, m, t)"
  by (simp_all add: add_tags_def remove_tags_def set_tags_def)

text \<open>
  C5. \<^verbatim>\<open>set_tags\<close> takes a list of strings, by its docstring, and compares it with the set
  \<^verbatim>\<open>self._tags\<close>; the two are never equal. On a thread tagged \<open>x\<close> and \<open>y\<close>,
  \<^verbatim>\<open>set_tags(['x', 'y'])\<close> therefore puts a \<^verbatim>\<open>'set'\<close> command in the queue although the
  tags asked for are the tags of the thread.
\<close>

theorem set_tags_same_tags_as_list_enqueues:
  "set_tags False (PyList [''x'', ''y'']) (DBManager None False) sample_thread =
     (None,
      (DBManager None False)\<lparr>writequeue :=
         [(''set'', ''thread:0001'', PyList [''x'', ''y''], False)]\<rparr>,
      sample_thread)"
  by (simp add: set_tags_def tag_def DBManager_def sample_thread_def load_def sample_nm_thread_def)

text \<open>
  C7 as stated fails on a manager opened read-only: \<^verbatim>\<open>untag\<close> raises, nothing is queued
  and the tags of the thread stay.
\<close>

theorem remove_tags_read_only_raises:
  "remove_tags False (PyList [''x'', ''z'']) (DBManager None True) sample_thread =
     (Some DatabaseROError, DBManager None True, sample_thread)"
  by (simp add: remove_tags_def untag_def DBManager_def sample_thread_def load_def sample_nm_thread_def)

text \<open>
  C7, as the source has it. When the tags asked for and the tags of the thread have an
  element in common: on a manager that is not read-only \<^verbatim>\<open>remove_tags\<close> appends to the
  queue one \<^verbatim>\<open>'untag'\<close> command for \<^verbatim>\<open>thread:<id>\<close> that carries the tags as asked for,
  and takes the common ones out of the tags of the thread at once; on a read-only
  manager it raises \<^verbatim>\<open>DatabaseROError\<close> and changes nothing.
\<close>

theorem remove_tags_enqueues_request:
  assumes "to_set R \<inter> tags t \<noteq> {}"
  shows "remove_tags sync R m t =
     (if ro m then (Some DatabaseROError, m, t)
      else (None,
            m\<lparr>writequeue := writequeue m @ [(''untag'', ''thread:'' @ thread_id t, R, sync)]\<rparr>,
            t\<lparr>tags := tags t - (to_set R \<inter> tags t)\<rparr>))"
  using assms by (simp add: remove_tags_def untag_def Let_def)

theorem remove_tags_enqueues_request_witness:
  "remove_tags False (PyList [''x'', ''z'']) (DBManager None False) sample_thread =
     (None,
      (DBManager None False)\<lparr>writequeue :=
         [(''untag'', ''thread:0001'', PyList [''x'', ''z''], False)]\<rparr>,
      sample_thread\<lparr>tags := {''y''}\<rparr>)"
proof -
  have ne: "to_set (PyList [''x'', ''z'']) \<inter> tags sample_thread \<noteq> {}"
    by (simp add: sample_thread_def load_def sample_nm_thread_def)
  have eq: "tags sample_thread
      - (to_set (PyList [''x'', ''z'']) \<inter> tags sample_thread) = {''y''}"
    by (auto simp add: sample_thread_def load_def sample_nm_thread_def)
  show ?thesis
    using remove_tags_enqueues_request [OF ne, of False "DBManager None False"] eq
    by (simp add: DBManager_def sample_thread_def load_def sample_nm_thread_def)
qed


section \<open>Refreshing a thread\<close>

text \<open>The sample thread is what the constructor makes of the sample thread of the index.\<close>

lemma Thread_sample: "Thread sample_nm_thread = Inr sample_thread"
  by (simp add: Thread_def sample_thread_def sample_nm_thread_def)

text \<open>
  C6 as stated fails: \<^verbatim>\<open>get_messages\<close> builds the tree of the sample thread (\<open>m2\<close> replies
  to \<open>m1\<close>), and a \<^verbatim>\<open>refresh\<close> after it leaves \<^verbatim>\<open>_messages\<close> empty.
\<close>

theorem refresh_resets_message_tree:
  "messages (snd (snd (get_messages sample_manager (sample_index always_commits)
       sample_thread)))
     = [(Message ''m1'', [Message ''m2'']), (Message ''m2'', [])]
   \<and> messages (snd (snd (refresh None sample_manager (sample_index always_commits)
        (snd (snd (get_messages sample_manager (sample_index always_commits)
           sample_thread)))))) = []"
  by (simp add: get_messages_def refresh_def refresh_from_def query_def search_threads_next_def
      open_database_def record_io_def sample_defs load_def Let_def)

text \<open>
  C6, as the source has it. A \<^verbatim>\<open>refresh\<close> that does not raise takes a thread from the
  index (the first one the query \<^verbatim>\<open>thread:<id>\<close> finds, when none is handed over: the
  index is opened read-only, the query created and searched) and loads every field
  but the id from it: message count, authors, subject, the two dates and the tags are
  those of that thread. It resets the message tree: \<^verbatim>\<open>_messages\<close> and
  \<^verbatim>\<open>_toplevel_messages\<close> are empty afterwards, whatever they held.
\<close>

theorem refresh_reloads_and_resets:
  assumes "refresh thread_arg m db t = (None, db', t')"
  shows "\<exists>th.
      (case thread_arg of
         Some th0 \<Rightarrow> th = th0 \<and> db' = db
       | None \<Rightarrow>
           (\<exists>rest. search_threads db (''thread:'' @ thread_id t) = th # rest)
           \<and> io_log db' = io_log db @
                [OpenDatabase (path m) READ_ONLY, CreateQuery (''thread:'' @ thread_id t),
                 SearchThreads (''thread:'' @ thread_id t)])
      \<and> t' = load (thread_id t) th
      \<and> thread_id t' = thread_id t
      \<and> total_messages t' = nm_total_messages th
      \<and> authors t' = nm_authors th
      \<and> subject t' = nm_subject th
      \<and> oldest_date t' = fromtimestamp (nm_oldest_date th)
      \<and> newest_date t' = fromtimestamp (nm_newest_date th)
      \<and> tags t' = set (nm_tags th)
      \<and> messages t' = []
      \<and> toplevel_messages t' = []"
proof (cases thread_arg)
  case (Some th0)
  with assms have "nm_raises th0 = None" and "t' = load (thread_id t) th0" and "db' = db"
    by (auto simp add: refresh_def refresh_from_def split: option.splits)
  with Some show ?thesis
    by (intro exI [of _ th0]) (simp add: load_def)
next
  case None
  let ?q = "''thread:'' @ thread_id t"
  from assms None have opened: "\<not> ro_open_raises db"
    by (auto simp add: refresh_def query_def open_database_def Let_def split: if_splits)
  let ?db1 = "record_io [CreateQuery ?q] (record_io [OpenDatabase (path m) READ_ONLY] db)"
  have q: "query ?q m db = (Inr ?q, ?db1)"
    using opened by (simp add: query_def open_database_def Let_def)
  from assms None q obtain th where
    nx: "search_threads_next ?q ?db1 = (Inr th, db')" and rf: "refresh_from th t = (None, t')"
    by (auto simp add: refresh_def split: prod.splits sum.splits)
  from nx obtain rest where found: "search_threads db ?q = th # rest"
    and log: "io_log db' = io_log db @ [OpenDatabase (path m) READ_ONLY, CreateQuery ?q, SearchThreads ?q]"
    by (auto simp add: search_threads_next_def record_io_def Let_def
        split: option.splits list.splits)
  from rf have "t' = load (thread_id t) th"
    by (auto simp add: refresh_from_def split: option.splits)
  with None found log show ?thesis
    by (intro exI [of _ th]) (simp add: load_def)
qed

theorem refresh_reloads_and_resets_witness:
  "refresh None sample_manager (sample_index always_commits)
      (sample_thread\<lparr>tags := {''y''},
          messages := [(Message ''m1'', [Message ''m2'']), (Message ''m2'', [])],
          toplevel_messages := [Message ''m1'']\<rparr>)
     = (None,
        (sample_index always_commits)\<lparr>io_log :=
           [OpenDatabase (Some ''/mail'') READ_ONLY, CreateQuery ''thread:0001'',
            SearchThreads ''thread:0001'']\<rparr>,
        sample_thread)
   \<and> search_threads (sample_index always_commits) ''thread:0001'' = [sample_nm_thread]
   \<and> tags sample_thread = {''x'', ''y''}
   \<and> total_messages sample_thread = 2
   \<and> messages sample_thread = []
   \<and> toplevel_messages sample_thread = []"
  using refresh_reloads_and_resets
    [of None sample_manager "sample_index always_commits"
        "sample_thread\<lparr>tags := {''y''},
            messages := [(Message ''m1'', [Message ''m2'']), (Message ''m2'', [])],
            toplevel_messages := [Message ''m1'']\<rparr>"
        "(sample_index always_commits)\<lparr>io_log :=
           [OpenDatabase (Some ''/mail'') READ_ONLY, CreateQuery ''thread:0001'',
            SearchThreads ''thread:0001'']\<rparr>"
        sample_thread]
  by (simp add: refresh_def refresh_from_def query_def search_threads_next_def open_database_def
      record_io_def sample_defs load_def Let_def)

text \<open>After a \<^verbatim>\<open>refresh\<close> the next \<^verbatim>\<open>get_messages\<close> asks the index again.\<close>

lemma get_messages_queries_when_empty:
  "messages t = [] \<Longrightarrow>
     io_log (fst (snd (get_messages m db t))) \<noteq> io_log db"
  by (simp add: get_messages_def query_def search_threads_next_def open_database_def
      record_io_def Let_def split: list.splits option.splits)


section \<open>Looking a thread up\<close>

text \<open>
  C10 as stated fails: when opening the index read-only raises, \<^verbatim>\<open>get_thread\<close> lets the
  \<^verbatim>\<open>NotmuchError\<close> through, since \<^verbatim>\<open>self.query\<close> is called before the \<^verbatim>\<open>try\<close>.
\<close>

theorem get_thread_propagates_open_failure:
  "get_thread ''0001'' sample_manager ((sample_index always_commits)\<lparr>ro_open_raises := True\<rparr>) =
     (Inl NotmuchError,
      (sample_index always_commits)\<lparr>ro_open_raises := True,
         io_log := [OpenDatabase (Some ''/mail'') READ_ONLY]\<rparr>)"
  by (simp add: get_thread_def query_def open_database_def record_io_def sample_index_def
      sample_manager_def DBManager_def)

text \<open>
  C10, as the source has it. \<^verbatim>\<open>get_thread\<close> raises only what opening the index raises.
  When the index opens, every exception raised inside the \<^verbatim>\<open>try\<close> is answered with
  \<^verbatim>\<open>None\<close>: whatever the search raises, the \<^verbatim>\<open>StopIteration\<close> of a search that finds
  nothing, whatever the constructor raises on the thread found. Otherwise the result is
  the wrapper of the first thread found.
\<close>

theorem get_thread_result:
  "fst (get_thread tid m db) =
     (if ro_open_raises db then Inl NotmuchError
      else case search_threads_raises db (''thread:'' @ tid) of
             Some e \<Rightarrow> Inr None
           | None \<Rightarrow>
               (case search_threads db (''thread:'' @ tid) of
                  [] \<Rightarrow> Inr None
                | th # rest \<Rightarrow>
                    (case nm_raises th of
                       Some e \<Rightarrow> Inr None
                     | None \<Rightarrow> Inr (Some (load (nm_thread_id th) th)))))"
  by (simp add: get_thread_def query_def open_database_def search_threads_next_def record_io_def
      Thread_def Let_def split: list.splits option.splits)

theorem get_thread_result_witness:
  "fst (get_thread ''0001'' sample_manager
          ((sample_index always_commits)\<lparr>search_threads_raises := search_fails\<rparr>)) = Inr None
   \<and> fst (get_thread ''0001'' sample_manager
          ((sample_index always_commits)\<lparr>search_threads := broken_thread\<rparr>)) = Inr None
   \<and> fst (get_thread ''0002'' sample_manager (sample_index always_commits)) = Inr None
   \<and> fst (get_thread ''0001'' sample_manager (sample_index always_commits))
       = Inr (Some sample_thread)"
  using get_thread_result
      [of "''0001''" sample_manager
          "(sample_index always_commits)\<lparr>search_threads_raises := search_fails\<rparr>"]
    get_thread_result
      [of "''0001''" sample_manager
          "(sample_index always_commits)\<lparr>search_threads := broken_thread\<rparr>"]
    get_thread_result [of "''0002''" sample_manager "sample_index always_commits"]
    get_thread_result [of "''0001''" sample_manager "sample_index always_commits"]
  by (simp add: sample_defs)


section \<open>Search processes and their pipes\<close>

lemma send_each_sent: "sent (send_each f xs p) = sent p @ map f xs"
  by (induction xs arbitrary: p) (simp_all add: send_def)

lemma send_each_flags:
  "parent_sender_closed (send_each f xs p) = parent_sender_closed p"
  "worker_sender_closed (send_each f xs p) = worker_sender_closed p"
  by (induction xs arbitrary: p) (simp_all add: send_def)

text \<open>
  A pipe with every sending end closed gives its values in order and then \<^verbatim>\<open>EOFError\<close>.
\<close>

lemma recv_times_closed:
  "parent_sender_closed p \<Longrightarrow> worker_sender_closed p \<Longrightarrow>
   recv_times p (Suc (length (sent p))) = map (\<lambda>v. Some (Inr v)) (sent p) @ [Some (Inl EOFError)]"
proof (induction "sent p" arbitrary: p)
  case Nil
  then show ?case
    by (simp add: recv_def)
next
  case (Cons v vs)
  from Cons.hyps(2) have s: "sent p = v # vs"
    by simp
  have "recv_times (p\<lparr>sent := vs\<rparr>) (Suc (length vs))
      = map (\<lambda>v. Some (Inr v)) vs @ [Some (Inl EOFError)]"
    using Cons.hyps(1) [of "p\<lparr>sent := vs\<rparr>"] Cons.prems by simp
  then show ?case
    by (simp add: s recv_def)
qed

text \<open>
  C8. For every producer \<open>cbl\<close> and every transform \<open>f\<close>: the worker that \<^verbatim>\<open>async\<close> starts,
  run to its end, has sent over its pipe exactly the values \<open>f a\<close> for the items \<open>a\<close> of
  \<open>cbl ()\<close>, in their order, as many as there are items, and has closed its sending end;
  the caller's copy of the sending end is closed too, so that the receiver gets these
  values one by one and then the end of the stream.
\<close>

theorem worker_sends_all_then_closes:
  "(case async cbl f s m of
      ((receiver, process), s1, m1) \<Rightarrow>
        sent (pipes (run process s1) ! receiver) = map f (cbl ())
        \<and> length (sent (pipes (run process s1) ! receiver)) = length (cbl ())
        \<and> worker_sender_closed (pipes (run process s1) ! receiver)
        \<and> parent_sender_closed (pipes (run process s1) ! receiver)
        \<and> pstate (procs (run process s1) ! process) = Exited
        \<and> recv_times (pipes (run process s1) ! receiver) (Suc (length (cbl ())))
            = map (\<lambda>a. Some (Inr (f a))) (cbl ()) @ [Some (Inl EOFError)])"
proof -
  let ?r = "length (pipes s)" and ?p = "length (procs s)"
  obtain s1 m1 where a: "async cbl f s m = ((?r, ?p), s1, m1)"
    by (simp add: async_def Let_def)
  let ?P = "pipes (run ?p s1) ! ?r"
  have s1: "s1 = fst (snd (async cbl f s m))"
    using a by simp
  have sent: "sent ?P = map f (cbl ())"
    and w: "worker_sender_closed ?P" and pc: "parent_sender_closed ?P"
    and ex: "pstate (procs (run ?p s1) ! ?p) = Exited"
    unfolding s1
    by (simp_all add: async_def run_def Let_def nth_append send_each_sent send_each_flags)
  have "recv_times ?P (Suc (length (sent ?P)))
      = map (\<lambda>v. Some (Inr v)) (sent ?P) @ [Some (Inl EOFError)]"
    using pc w by (rule recv_times_closed)
  then have rt: "recv_times ?P (Suc (length (cbl ())))
      = map (\<lambda>a. Some (Inr (f a))) (cbl ()) @ [Some (Inl EOFError)]"
    by (simp add: sent comp_def)
  show ?thesis
    unfolding a using sent w pc ex rt by (simp del: recv_times.simps)
qed

lemma terminate_length [simp]: "length (procs (terminate p s)) = length (procs s)"
  by (simp add: terminate_def Let_def)

lemma fold_terminate_length [simp]: "length (procs (fold terminate ps s)) = length (procs s)"
  by (induction ps arbitrary: s) simp_all

lemma terminate_not_started:
  "pstate (procs s ! q) \<noteq> Started \<Longrightarrow> pstate (procs (terminate p s) ! q) \<noteq> Started"
  by (cases "p = q") (auto simp add: terminate_def Let_def)

lemma fold_terminate_keeps_not_started:
  "pstate (procs s ! q) \<noteq> Started \<Longrightarrow> pstate (procs (fold terminate ps s) ! q) \<noteq> Started"
  by (induction ps arbitrary: s) (simp_all add: terminate_not_started)

lemma terminate_self:
  "p < length (procs s) \<Longrightarrow> pstate (procs (terminate p s) ! p) \<noteq> Started"
  by (auto simp add: terminate_def Let_def)

text \<open>A worker that is killed while it runs no longer holds its sending end open.\<close>

lemma terminate_closes_sender:
  "p < length (procs s) \<Longrightarrow> pstate (procs s ! p) = Started \<Longrightarrow>
   pipe (procs s ! p) < length (pipes s) \<Longrightarrow>
     worker_sender_closed (pipes (terminate p s) ! pipe (procs s ! p))"
  by (simp add: terminate_def Let_def)

lemma fold_terminate_none_running:
  "p \<in> set ps \<Longrightarrow> p < length (procs s) \<Longrightarrow>
     pstate (procs (fold terminate ps s) ! p) \<noteq> Started"
proof (induction ps arbitrary: s)
  case Nil
  then show ?case
    by simp
next
  case (Cons a ps)
  show ?case
  proof (cases "p = a")
    case True
    then show ?thesis
      using Cons.prems by (simp add: fold_terminate_keeps_not_started terminate_self)
  next
    case False
    then show ?thesis
      using Cons by simp
  qed
qed

text \<open>
  C9. The list \<^verbatim>\<open>processes\<close> of the manager gets one more entry, the new worker, from
  \<^verbatim>\<open>async\<close>, and the worker is still in it once it has run to its end;
  \<^verbatim>\<open>kill_search_processes\<close> leaves the list empty and no worker that was in it running;
  \<^verbatim>\<open>flush\<close>, \<^verbatim>\<open>tag\<close>, \<^verbatim>\<open>untag\<close> and the tag methods of a thread leave the list as it is.
\<close>

theorem processes_tracking:
  "(case async cbl f s m of
      ((receiver, process), s1, m1) \<Rightarrow>
         processes m1 = processes m @ [process]
         \<and> pstate (procs (run process s1) ! process) = Exited
         \<and> process \<in> set (processes m1))
   \<and> (case kill_search_processes s m of
      (s', m') \<Rightarrow>
         processes m' = []
         \<and> (\<forall>p \<in> set (processes m). p < length (procs s) \<longrightarrow> pstate (procs s' ! p) \<noteq> Started))
   \<and> (flush db m = Some (e, db', m2) \<longrightarrow> processes m2 = processes m)
   \<and> processes (snd (tag sync q tgs rest m)) = processes m
   \<and> processes (snd (untag sync q tgs m)) = processes m
   \<and> processes (fst (snd (add_tags sync tgs m t))) = processes m
   \<and> processes (fst (snd (remove_tags sync tgs m t))) = processes m
   \<and> processes (fst (snd (set_tags sync tgs m t))) = processes m"
proof -
  have "(case async cbl f s m of
      ((receiver, process), s1, m1) \<Rightarrow>
         processes m1 = processes m @ [process]
         \<and> pstate (procs (run process s1) ! process) = Exited
         \<and> process \<in> set (processes m1))"
    by (simp add: async_def run_def Let_def nth_append)
  moreover have "(case kill_search_processes s m of
      (s', m') \<Rightarrow>
         processes m' = []
         \<and> (\<forall>p \<in> set (processes m). p < length (procs s) \<longrightarrow> pstate (procs s' ! p) \<noteq> Started))"
    by (simp add: kill_search_processes_def fold_terminate_none_running)
  moreover have "flush db m = Some (e, db', m2) \<longrightarrow> processes m2 = processes m"
    using flush_frame by blast
  moreover have "processes (snd (tag sync q tgs rest m)) = processes m"
    by (simp add: tag_def)
  moreover have "processes (snd (untag sync q tgs m)) = processes m"
    by (simp add: untag_def)
  moreover have "processes (fst (snd (add_tags sync tgs m t))) = processes m"
    by (simp add: add_tags_def tag_def Let_def)
  moreover have "processes (fst (snd (remove_tags sync tgs m t))) = processes m"
    by (simp add: remove_tags_def untag_def Let_def)
  moreover have "processes (fst (snd (set_tags sync tgs m t))) = processes m"
    by (simp add: set_tags_def tag_def)
  ultimately show ?thesis
    by blast
qed

theorem processes_tracking_witness:
  "processes (snd (snd (async three_ids mark no_os sample_manager))) = [0]
   \<and> 0 \<in> set (processes (sample_manager\<lparr>processes := [0]\<rparr>))
   \<and> 0 < length (procs (fst (snd (async three_ids mark no_os sample_manager))))
   \<and> pstate (procs (fst (kill_search_processes
         (fst (snd (async three_ids mark no_os sample_manager)))
         (sample_manager\<lparr>processes := [0]\<rparr>))) ! 0) \<noteq> Started
   \<and> processes (snd (kill_search_processes
         (fst (snd (async three_ids mark no_os sample_manager)))
         (sample_manager\<lparr>processes := [0]\<rparr>))) = []
   \<and> flush (sample_index always_commits) (sample_manager\<lparr>processes := [0]\<rparr>) =
        Some (None,
          (sample_index always_commits)\<lparr>begun := 3, ended := 3,
             io_log := OpenDatabase (Some ''/mail'') READ_WRITE
               # concat (map (transaction_calls (sample_index always_commits))
                    [item_A, item_B, item_C])\<rparr>,
          sample_manager\<lparr>processes := [0], writequeue := []\<rparr>)
   \<and> processes (sample_manager\<lparr>processes := [0], writequeue := []\<rparr>) = [0]"
proof -
  let ?s1 = "fst (snd (async three_ids mark no_os sample_manager))"
  let ?m1 = "sample_manager\<lparr>processes := [0]\<rparr>"
  let ?db = "sample_index always_commits"
  let ?db' = "?db\<lparr>begun := 3, ended := 3,
      io_log := OpenDatabase (Some ''/mail'') READ_WRITE
        # concat (map (transaction_calls ?db) [item_A, item_B, item_C])\<rparr>"
  have len: "0 < length (procs ?s1)"
    by (simp add: async_def no_os_def Let_def)
  have fl: "flush ?db ?m1 = Some (None, ?db', ?m1\<lparr>writequeue := []\<rparr>)"
  proof -
    let ?db1 = "record_io [OpenDatabase (Some ''/mail'') READ_WRITE] ?db"
    have "flush ?db ?m1 = flush_loop ?db1 ?m1"
      by (simp add: flush_def open_database_def Let_def sample_index_def sample_manager_def
          DBManager_def)
    also have "\<dots> =
       Some (None,
             ?db1\<lparr>begun := begun ?db1 + length (writequeue ?m1),
                ended := ended ?db1 + length (writequeue ?m1),
                io_log := io_log ?db1 @ concat (map (transaction_calls ?db1) (writequeue ?m1))\<rparr>,
             ?m1\<lparr>writequeue := []\<rparr>)"
      by (intro flush_loop_all_commit)
         (simp_all add: record_io_def sample_index_def never_raises_def always_commits_def)
    finally show ?thesis
      by (simp add: record_io_def sample_index_def sample_manager_def DBManager_def
          transaction_calls_def item_calls_def)
  qed
  note spawn = processes_tracking
    [where cbl = three_ids and f = mark and s = no_os and m = sample_manager, THEN conjunct1]
  note kill = processes_tracking
    [where s = ?s1 and m = ?m1, THEN conjunct2, THEN conjunct1]
  note other = processes_tracking
    [where m = ?m1 and db = ?db and e = None and db' = ?db'
       and ?m2.0 = "?m1\<lparr>writequeue := []\<rparr>", THEN conjunct2, THEN conjunct2, THEN conjunct1]
  have c1: "processes (snd (snd (async three_ids mark no_os sample_manager))) = [0]"
    using spawn
    by (simp add: case_prod_unfold async_def no_os_def Let_def sample_manager_def DBManager_def)
  have c2: "pstate (procs (fst (kill_search_processes ?s1 ?m1)) ! 0) \<noteq> Started
      \<and> processes (snd (kill_search_processes ?s1 ?m1)) = []"
    using kill len by (simp add: case_prod_unfold)
  have c3: "processes (?m1\<lparr>writequeue := []\<rparr>) = [0]"
    using other fl by simp
  show ?thesis
    using c1 c2 c3 len fl by simp
qed

end
